theory Spec2Isabelle
  imports Main "HOL-Library.Word"
begin

section \<open>Data model\<close>

text \<open>
  Dynamically typed Go values (\<^verbatim>\<open>interface{}\<close>): handler arguments, handler results and
  packet payload elements. \<open>VNil\<close> is the nil interface, \<open>VErr\<close> a non-nil value that
  implements \<^verbatim>\<open>error\<close>, \<open>VFunc\<close> a value of kind \<^verbatim>\<open>reflect.Func\<close>, named by a string.
\<close>

datatype val = VNil | VBool bool | VInt int | VStr string | VErr string | VFunc string

text \<open>The packet types \<^verbatim>\<open>_CONNECT\<close> ... \<^verbatim>\<open>_BINARY_ACK\<close>.\<close>

datatype ptype = CONNECT | DISCONNECT | EVENT | ACK | ERROR | BINARY_EVENT | BINARY_ACK

text \<open>Go's \<^verbatim>\<open>int\<close> on a 64-bit platform: two's complement, arithmetic wraps around.\<close>

type_synonym goint = "64 word"

text \<open>
  \<^verbatim>\<open>packet{Type, Id, NSP, Data}\<close>. \<open>Data\<close> is \<open>None\<close> where the Go field holds nil.
  The field \<^verbatim>\<open>Id\<close> is called \<open>PId\<close> here.
\<close>

record packet =
  Type :: ptype
  PId :: goint
  NSP :: string
  Data :: "val list option"

text \<open>
  Errors as values. \<open>Err\<close> is an ordinary Go error; \<open>NilDeref\<close> stands for the run-time
  panic of a method call through a nil pointer.
\<close>

datatype error = Err string | NilDeref

text \<open>
  Modelled from the spec: the \<^verbatim>\<open>caller\<close> type (the reflection shim around a handler
  function) is not among the sources. \<open>GetArgs\<close> is the fresh sequence of zero-valued
  slots, one per declared parameter after the socket; \<open>Call\<close> gives the result values
  of the function for the given argument slots; \<open>cid\<close> names the wrapped function so
  that a trace can tell which one ran. A handler is taken as a function of its
  arguments: what it may itself do to the socket it is passed is not part of the model.
\<close>

record caller =
  cid :: string
  GetArgs :: "val list"
  Call :: "val list \<Rightarrow> val list"

text \<open>
  Modelled from the spec: the packet codec's \<^verbatim>\<open>decoder\<close> is not among the sources.
  \<open>Message\<close> is the event name it reads from the payload; \<open>DecodeData\<close> takes the
  argument slots the packet's data points at and either fails or leaves the decoded
  elements in them (possibly fewer than there were slots).
\<close>

record decoder =
  Message :: string
  DecodeData :: "val list \<Rightarrow> string + val list"

text \<open>
  Every call the core makes to an external collaborator (transport encoder, decoder,
  broadcast adaptor, handler function) is recorded, in order, in a trace.
\<close>

datatype event =
    Encoded packet
  | EncodeFailed packet
  | Invoked string "val list"
  | DecMessage
  | DecDecodeData
  | DecClose
  | AdJoin string string
  | AdLeave string string
  | ConnClose

text \<open>
  The behaviour of the collaborators is a parameter: whether the encoder fails on a
  packet (given what happened before), whether the adaptor refuses a room, and what
  \<^verbatim>\<open>newCaller\<close> makes of a function value.
\<close>

record env =
  encode_err :: "event list \<Rightarrow> packet \<Rightarrow> string option"
  join_err :: "string \<Rightarrow> string option"
  leave_err :: "string \<Rightarrow> string option"
  newCaller :: "string \<Rightarrow> error + caller"

text \<open>
  \<^verbatim>\<open>nspSocket\<close> with the fields of its embedded \<^verbatim>\<open>socketHandler\<close> and \<^verbatim>\<open>baseHandler\<close>:
  the namespace name, the handler table, the room set (a Go map used as a set; the
  list gives the order in which a \<^verbatim>\<open>range\<close> visits it), and the two flags.
  Modelled from the spec: the declaration of \<^verbatim>\<open>disconnected\<close>, which \<^verbatim>\<open>socket.loop\<close> reads
  and sets on a view, is not among the sources; it is a boolean field of the view.
\<close>

record nspSocket =
  name :: string
  events :: "string \<Rightarrow> caller option"
  rooms :: "string list"
  connected :: bool
  disconnected :: bool

text \<open>
  \<^verbatim>\<open>socket\<close>: the namespace views by name (list order is the \<^verbatim>\<open>range\<close> order), the ack
  id counter \<^verbatim>\<open>id\<close> (here \<open>id_ctr\<close>), the ack table, and the trace of the connection.
\<close>

record socket =
  nsps :: "(string \<times> nspSocket) list"
  id_ctr :: goint
  acks :: "goint \<Rightarrow> caller option"
  trace :: "event list"

section \<open>Emission (nspsocket.go)\<close>

text \<open>\<^verbatim>\<open>newEncoder(n.conn).Encode(packet)\<close>.\<close>

definition Encode :: "env \<Rightarrow> packet \<Rightarrow> socket \<Rightarrow> error option \<times> socket" where
  "Encode E p s =
     (case encode_err E (trace s) p of
        Some e \<Rightarrow> (Some (Err e), s\<lparr>trace := trace s @ [EncodeFailed p]\<rparr>)
      | None \<Rightarrow> (None, s\<lparr>trace := trace s @ [Encoded p]\<rparr>))"

definition sendId :: "env \<Rightarrow> val list \<Rightarrow> nspSocket \<Rightarrow> socket \<Rightarrow> (goint \<times> error option) \<times> socket" where
  "sendId E args n s =
     (let p = \<lparr>Type = EVENT, PId = id_ctr s, NSP = name n, Data = Some args\<rparr>;
          s1 = s\<lparr>id_ctr := id_ctr s + 1\<rparr>;
          s2 = (if sint (id_ctr s1) < 0 then s1\<lparr>id_ctr := 0\<rparr> else s1)
      in case Encode E p s2 of
           (Some err, s3) \<Rightarrow> ((- 1, None), s3)
         | (None, s3) \<Rightarrow> ((PId p, None), s3))"

definition send :: "env \<Rightarrow> val list \<Rightarrow> nspSocket \<Rightarrow> socket \<Rightarrow> error option \<times> socket" where
  "send E args n s = Encode E \<lparr>Type = EVENT, PId = - 1, NSP = name n, Data = Some args\<rparr> s"

definition sendDisconnect :: "env \<Rightarrow> nspSocket \<Rightarrow> socket \<Rightarrow> error option \<times> socket" where
  "sendDisconnect E n s = Encode E \<lparr>Type = DISCONNECT, PId = - 1, NSP = name n, Data = None\<rparr> s"

definition sendConnect :: "env \<Rightarrow> nspSocket \<Rightarrow> socket \<Rightarrow> error option \<times> nspSocket \<times> socket" where
  "sendConnect E n s =
     (let p = \<lparr>Type = CONNECT, PId = - 1, NSP = name n, Data = None\<rparr>;
          n1 = n\<lparr>connected := True\<rparr>
      in case Encode E p s of (err, s1) \<Rightarrow> (err, n1, s1))"

definition Disconnect :: "env \<Rightarrow> nspSocket \<Rightarrow> socket \<Rightarrow> socket" where
  "Disconnect E n s =
     (if name n \<noteq> '''' then snd (sendDisconnect E n s)
      else s\<lparr>trace := trace s @ [ConnClose]\<rparr>)"

definition nspEmit :: "env \<Rightarrow> string \<Rightarrow> val list \<Rightarrow> nspSocket \<Rightarrow> socket \<Rightarrow> error option \<times> socket" where
  "nspEmit E ev args n s =
     (case (if args \<noteq> [] then (case last args of VFunc f \<Rightarrow> Some f | _ \<Rightarrow> None) else None) of
        Some f \<Rightarrow>
          (case newCaller E f of
             Inl err \<Rightarrow> (Some err, s)
           | Inr c \<Rightarrow>
               (case sendId E (VStr ev # butlast args) n s of
                  ((i, Some err), s1) \<Rightarrow> (Some err, s1)
                | ((i, None), s1) \<Rightarrow> (None, s1\<lparr>acks := (acks s1)(i \<mapsto> c)\<rparr>)))
      | None \<Rightarrow> send E (VStr ev # args) n s)"

definition Emit :: "env \<Rightarrow> string \<Rightarrow> val list \<Rightarrow> nspSocket \<Rightarrow> socket \<Rightarrow> error option \<times> socket" where
  "Emit E ev args n s =
     (case nspEmit E ev args n s of
        (Some err, s1) \<Rightarrow> (Some err, s1)
      | (None, s1) \<Rightarrow> (None, if ev = ''disconnect'' then Disconnect E n s1 else s1))"

section \<open>Rooms and dispatch (handler)\<close>

definition broadcastName :: "nspSocket \<Rightarrow> string \<Rightarrow> string" where
  "broadcastName h room = name h @ '':'' @ room"

definition Rooms :: "nspSocket \<Rightarrow> string list" where
  "Rooms h = filter (\<lambda>room. take (length (name h @ '':'')) room = name h @ '':'') (rooms h)"

definition Join :: "env \<Rightarrow> string \<Rightarrow> nspSocket \<Rightarrow> socket \<Rightarrow> error option \<times> nspSocket \<times> socket" where
  "Join E room h s =
     (let roomName = broadcastName h room;
          s1 = s\<lparr>trace := trace s @ [AdJoin roomName (name h)]\<rparr>
      in case join_err E roomName of
           Some e \<Rightarrow> (Some (Err e), h, s1)
         | None \<Rightarrow>
             (None,
              h\<lparr>rooms := (if roomName \<in> set (rooms h) then rooms h else rooms h @ [roomName])\<rparr>,
              s1))"

definition Leave :: "env \<Rightarrow> string \<Rightarrow> nspSocket \<Rightarrow> socket \<Rightarrow> error option \<times> nspSocket \<times> socket" where
  "Leave E room h s =
     (let roomName = broadcastName h room;
          s1 = s\<lparr>trace := trace s @ [AdLeave roomName (name h)]\<rparr>
      in case leave_err E roomName of
           Some e \<Rightarrow> (Some (Err e), h, s1)
         | None \<Rightarrow> (None, h\<lparr>rooms := removeAll roomName (rooms h)\<rparr>, s1))"

text \<open>
  The \<^verbatim>\<open>range\<close> loop of \<^verbatim>\<open>LeaveAll\<close> over the rooms still to visit. It only reads the
  room set: the view is not changed.
\<close>

fun leaveRooms :: "env \<Rightarrow> nspSocket \<Rightarrow> string list \<Rightarrow> socket \<Rightarrow> error option \<times> socket" where
  "leaveRooms E h [] s = (None, s)"
| "leaveRooms E h (room # rs) s =
     (let roomName = broadcastName h room;
          s1 = s\<lparr>trace := trace s @ [AdLeave roomName (name h)]\<rparr>
      in case leave_err E roomName of
           Some e \<Rightarrow> (Some (Err e), s1)
         | None \<Rightarrow> leaveRooms E h rs s1)"

definition LeaveAll :: "env \<Rightarrow> nspSocket \<Rightarrow> socket \<Rightarrow> error option \<times> socket" where
  "LeaveAll E h s = leaveRooms E h (rooms h) s"

definition onAck :: "goint \<Rightarrow> decoder option \<Rightarrow> packet \<Rightarrow> nspSocket \<Rightarrow> socket \<Rightarrow> error option \<times> socket" where
  "onAck i dec p h s =
     (case acks s i of
        None \<Rightarrow> (None, s)
      | Some c \<Rightarrow>
          (let s1 = s\<lparr>acks := (acks s)(i := None)\<rparr>;
               args = GetArgs c
           in case dec of
                None \<Rightarrow> (Some NilDeref, s1)
              | Some d \<Rightarrow>
                  (let s2 = s1\<lparr>trace := trace s1 @ [DecDecodeData]\<rparr>
                   in case DecodeData d args of
                        Inl e \<Rightarrow> (Some (Err e), s2)
                      | Inr args1 \<Rightarrow> (None, s2\<lparr>trace := trace s2 @ [Invoked (cid c) args1]\<rparr>))))"

text \<open>
  The end of \<^verbatim>\<open>onPacket\<close>: the handler's results \<open>retV\<close> become the payload and the
  error it returns. No results give \<^verbatim>\<open>(nil, nil)\<close>; a last result that implements
  \<^verbatim>\<open>error\<close> is split off.
\<close>

definition packResults :: "val list \<Rightarrow> val list option \<times> error option" where
  "packResults retV =
     (if retV = [] then (None, None)
      else (case last retV of
              VErr e \<Rightarrow> (Some (butlast retV), Some (Err e))
            | _ \<Rightarrow> (Some retV, None)))"

text \<open>
  The body of \<^verbatim>\<open>onPacket\<close> after its \<^verbatim>\<open>switch\<close>: handler lookup by the resolved event
  name, decoding into the handler's slots, padding, the call, and the split of the
  results into payload and error.
\<close>

definition dispatch :: "decoder option \<Rightarrow> string \<Rightarrow> nspSocket \<Rightarrow> socket \<Rightarrow> (val list option \<times> error option) \<times> socket" where
  "dispatch dec message h s =
     (case events h message of
        None \<Rightarrow>
          ((None, None),
           (case dec of Some d \<Rightarrow> s\<lparr>trace := trace s @ [DecClose]\<rparr> | None \<Rightarrow> s))
      | Some c \<Rightarrow>
          (let args = GetArgs c;
               olen = length args;
               (r, s1) =
                 (case dec of
                    Some d \<Rightarrow>
                      if olen > 0
                      then (DecodeData d args, s\<lparr>trace := trace s @ [DecDecodeData]\<rparr>)
                      else (Inr args, s)
                  | None \<Rightarrow> (Inr args, s))
           in case r of
                Inl e \<Rightarrow> ((None, Some (Err e)), s1)
              | Inr args1 \<Rightarrow>
                  (let args2 = args1 @ replicate (olen - length args1) VNil;
                       retV = Call c args2;
                       s2 = s1\<lparr>trace := trace s1 @ [Invoked (cid c) args2]\<rparr>
                   in (packResults retV, s2))))"

definition onPacket :: "decoder option \<Rightarrow> packet \<Rightarrow> nspSocket \<Rightarrow> socket \<Rightarrow> (val list option \<times> error option) \<times> socket" where
  "onPacket dec p h s =
     (case Type p of
        CONNECT \<Rightarrow> dispatch dec ''connection'' h s
      | DISCONNECT \<Rightarrow> dispatch dec ''disconnection'' h s
      | ERROR \<Rightarrow> dispatch dec ''error'' h s
      | ACK \<Rightarrow> (case onAck (PId p) dec p h s of (err, s1) \<Rightarrow> ((None, err), s1))
      | BINARY_ACK \<Rightarrow> (case onAck (PId p) dec p h s of (err, s1) \<Rightarrow> ((None, err), s1))
      | _ \<Rightarrow>
          (case dec of
             Some d \<Rightarrow> dispatch dec (Message d) h (s\<lparr>trace := trace s @ [DecMessage]\<rparr>)
           | None \<Rightarrow> dispatch dec '''' h s))"

section \<open>The connection loop (socket)\<close>

text \<open>
  \<^verbatim>\<open>s.namespace(nsp)\<close>: the view registered under \<open>nsp\<close>, else the root view, else nil.
  The key is returned with the view, so that a change to the view can be stored back.
\<close>

definition namespace :: "socket \<Rightarrow> string \<Rightarrow> (string \<times> nspSocket) option" where
  "namespace s nsp =
     (case map_of (nsps s) nsp of
        Some n \<Rightarrow> Some (nsp, n)
      | None \<Rightarrow> (case map_of (nsps s) '''' of Some n \<Rightarrow> Some ('''', n) | None \<Rightarrow> None))"

definition store :: "string \<Rightarrow> nspSocket \<Rightarrow> socket \<Rightarrow> socket" where
  "store k n s = s\<lparr>nsps := map (\<lambda>(k', v). if k' = k then (k', n) else (k', v)) (nsps s)\<rparr>"

text \<open>
  What the transport delivers: each frame either makes \<^verbatim>\<open>decoder.Decode\<close> fail or gives
  a decoder with the packet header it read. The end of the list is the closed
  transport, where \<^verbatim>\<open>Decode\<close> fails too.
\<close>

type_synonym frame = "string + decoder \<times> packet"

text \<open>One iteration of the \<^verbatim>\<open>for\<close> loop after a successful \<^verbatim>\<open>Decode\<close>.\<close>

definition handle :: "env \<Rightarrow> decoder \<Rightarrow> packet \<Rightarrow> socket \<Rightarrow> error option \<times> socket" where
  "handle E d p s =
     (case namespace s (NSP p) of
        None \<Rightarrow> (Some NilDeref, s)
      | Some (k, ns) \<Rightarrow>
          (case onPacket (Some d) p ns s of
             ((ret, Some err), s1) \<Rightarrow> (Some err, s1)
           | ((ret, None), s1) \<Rightarrow>
               (let ack =
                      (if 0 \<le> sint (PId p)
                       then Encode E \<lparr>Type = ACK, PId = PId p, NSP = NSP p, Data = ret\<rparr> s1
                       else (None, s1))
                in case Type p of
                     CONNECT \<Rightarrow>
                       (case sendConnect E ns s1 of (err, ns1, s2) \<Rightarrow> (None, store k ns1 s2))
                   | BINARY_EVENT \<Rightarrow> ack
                   | EVENT \<Rightarrow> ack
                   | DISCONNECT \<Rightarrow>
                       (case LeaveAll E ns s1 of
                          (err, s2) \<Rightarrow> (None, store k (ns\<lparr>disconnected := True\<rparr>) s2))
                   | _ \<Rightarrow> (None, s1))))"

fun readLoop :: "env \<Rightarrow> frame list \<Rightarrow> socket \<Rightarrow> error \<times> socket" where
  "readLoop E [] s = (Err ''EOF'', s)"
| "readLoop E (Inl e # fs) s = (Err e, s)"
| "readLoop E (Inr (d, p) # fs) s =
     (case handle E d p s of
        (Some err, s1) \<Rightarrow> (err, s1)
      | (None, s1) \<Rightarrow> readLoop E fs s1)"

text \<open>
  The deferred function of \<^verbatim>\<open>loop\<close>: the \<^verbatim>\<open>range\<close> over the views. It returns the views
  as it leaves them, with the socket.
\<close>

fun cleanup :: "env \<Rightarrow> (string \<times> nspSocket) list \<Rightarrow> socket \<Rightarrow> (string \<times> nspSocket) list \<times> socket" where
  "cleanup E [] s = ([], s)"
| "cleanup E ((k, v) # kvs) s =
     (if disconnected v
      then (case cleanup E kvs s of (kvs1, s1) \<Rightarrow> ((k, v) # kvs1, s1))
      else (let s1 = snd (LeaveAll E v s);
                p = \<lparr>Type = DISCONNECT, PId = - 1, NSP = k, Data = None\<rparr>;
                s2 = snd (onPacket None p v s1)
            in case cleanup E kvs s2 of
                 (kvs1, s3) \<Rightarrow> ((k, v\<lparr>disconnected := True\<rparr>) # kvs1, s3)))"

text \<open>
  The body of \<^verbatim>\<open>loop\<close> up to its return: the root \<open>CONNECT\<close> is encoded and dispatched
  locally, then the frames are read. It ends with the error that \<^verbatim>\<open>loop\<close> returns.
\<close>

definition loopBody :: "env \<Rightarrow> frame list \<Rightarrow> socket \<Rightarrow> error \<times> socket" where
  "loopBody E fs s =
     (let p = \<lparr>Type = CONNECT, PId = - 1, NSP = '''', Data = None\<rparr>
      in case Encode E p s of
           (Some e, s1) \<Rightarrow> (e, s1)
         | (None, s1) \<Rightarrow>
             (case namespace s1 '''' of
                None \<Rightarrow> (NilDeref, s1)
              | Some (k, ns) \<Rightarrow> readLoop E fs (snd (onPacket None p ns s1))))"

text \<open>\<^verbatim>\<open>loop\<close>: the body, then the deferred function on the state the body left.\<close>

definition loop :: "env \<Rightarrow> frame list \<Rightarrow> socket \<Rightarrow> error \<times> socket" where
  "loop E fs s =
     (case loopBody E fs s of
        (err, s1) \<Rightarrow>
          (case cleanup E (nsps s1) s1 of
             (kvs, s2) \<Rightarrow> (err, s2\<lparr>nsps := kvs\<rparr>)))"

text \<open>
  The event name that the \<^verbatim>\<open>switch\<close> of \<^verbatim>\<open>onPacket\<close> resolves for a packet that is not an
  acknowledgement, and the decoder calls it makes to resolve it.
\<close>

definition eventName :: "decoder option \<Rightarrow> packet \<Rightarrow> string" where
  "eventName dec p =
     (case Type p of
        CONNECT \<Rightarrow> ''connection''
      | DISCONNECT \<Rightarrow> ''disconnection''
      | ERROR \<Rightarrow> ''error''
      | _ \<Rightarrow> (case dec of Some d \<Rightarrow> Message d | None \<Rightarrow> ''''))"

definition nameCalls :: "decoder option \<Rightarrow> packet \<Rightarrow> event list" where
  "nameCalls dec p =
     (case dec of
        None \<Rightarrow> []
      | Some d \<Rightarrow> if Type p = EVENT \<or> Type p = BINARY_EVENT then [DecMessage] else [])"

section \<open>Concrete connections\<close>

text \<open>Collaborators that never fail, and the same with an encoder that always fails.\<close>

definition quiet :: env where
  "quiet =
     \<lparr>encode_err = (\<lambda>t p. None), join_err = (\<lambda>r. None), leave_err = (\<lambda>r. None),
      newCaller = (\<lambda>f. Inr \<lparr>cid = f, GetArgs = [VInt 0], Call = (\<lambda>args. [])\<rparr>)\<rparr>"

definition broken :: env where
  "broken = quiet\<lparr>encode_err := (\<lambda>t p. Some ''broken pipe'')\<rparr>"

text \<open>
  Handlers: \<^verbatim>\<open>func(s Socket, name string) (string, error)\<close> that returns an error,
  and \<^verbatim>\<open>func(s Socket, name string, n interface{}) string\<close>.
\<close>

definition failing :: caller where
  "failing = \<lparr>cid = ''failing'', GetArgs = [VStr ''''], Call = (\<lambda>args. [VStr ''hi'', VErr ''boom''])\<rparr>"

definition greet :: caller where
  "greet = \<lparr>cid = ''greet'', GetArgs = [VStr '''', VNil], Call = (\<lambda>args. [VStr ''hi'', hd args])\<rparr>"

definition view :: "string \<Rightarrow> nspSocket" where
  "view nm =
     \<lparr>name = nm, events = [''hello'' \<mapsto> failing, ''greet'' \<mapsto> greet], rooms = [],
      connected = False, disconnected = False\<rparr>"

definition sock :: socket where
  "sock = \<lparr>nsps = [('''', view ''''), (''/chat'', view ''/chat'')], id_ctr = 0, acks = Map.empty, trace = []\<rparr>"

text \<open>A decoder that reads event name \<open>m\<close> and payload \<open>xs\<close>, and one whose payload does not decode.\<close>

definition reads :: "string \<Rightarrow> val list \<Rightarrow> decoder" where
  "reads m xs = \<lparr>Message = m, DecodeData = (\<lambda>slots. Inr xs)\<rparr>"


text \<open>
  The connection after the view of namespace \<open>/chat\<close> has joined the rooms \<open>a\<close> and
  \<open>b\<close>: the view as the two calls of \<^verbatim>\<open>Join\<close> leave it, stored back under its name.
\<close>

definition joined :: socket where
  "joined =
     (case Join quiet ''a'' (view ''/chat'') sock of
        (err1, h1, s1) \<Rightarrow>
          (case Join quiet ''b'' h1 s1 of
             (err2, h2, s2) \<Rightarrow> store ''/chat'' h2 s2))"

section \<open>The ack id counter\<close>

lemma sint_succ_nonneg:
  fixes x :: goint
  assumes "0 \<le> sint x" and "x \<noteq> 0x7FFFFFFFFFFFFFFF"
  shows "\<not> sint (x + 1) < 0"
proof -
  have "sint x < 2 ^ 63" using sint_lt [of x] by simp
  moreover have "sint x \<noteq> 2 ^ 63 - 1"
  proof
    assume "sint x = 2 ^ 63 - 1"
    then have "sint x = sint (0x7FFFFFFFFFFFFFFF :: goint)" by simp
    then have "x = 0x7FFFFFFFFFFFFFFF" by (rule signed_word_eqI)
    with assms(2) show False by simp
  qed
  ultimately have b: "sint x + 1 < 2 ^ 63" by simp
  have "sint (x + 1) = signed_take_bit 63 (sint x + 1)"
    by (simp add: sint_word_ariths)
  also have "\<dots> = sint x + 1"
    using assms(1) b by (simp add: signed_take_bit_int_eq_self)
  finally show ?thesis using assms(1) by simp
qed

text \<open>
  C5. \<^verbatim>\<open>sendId\<close> hands the packet with the current counter value as its \<open>Id\<close> to the
  encoder (whether or not the encoder then fails), and leaves the counter at the
  successor, or at 0 when the successor is negative as a signed number. From a
  non-negative counter below the largest signed value the next id is the successor;
  from the largest signed value, \<open>2 ^ 63 - 1\<close>, the next id is 0.
\<close>

theorem sendId_allocates:
  "trace (snd (sendId E args n s)) =
     trace s @
     [if encode_err E (trace s) \<lparr>Type = EVENT, PId = id_ctr s, NSP = name n, Data = Some args\<rparr> = None
      then Encoded \<lparr>Type = EVENT, PId = id_ctr s, NSP = name n, Data = Some args\<rparr>
      else EncodeFailed \<lparr>Type = EVENT, PId = id_ctr s, NSP = name n, Data = Some args\<rparr>] \<and>
   id_ctr (snd (sendId E args n s)) = (if sint (id_ctr s + 1) < 0 then 0 else id_ctr s + 1) \<and>
   (0 \<le> sint (id_ctr s) \<and> id_ctr s \<noteq> 0x7FFFFFFFFFFFFFFF \<longrightarrow>
      id_ctr (snd (sendId E args n s)) = id_ctr s + 1) \<and>
   (id_ctr s = 0x7FFFFFFFFFFFFFFF \<longrightarrow>
      sint (id_ctr s) = 2 ^ 63 - 1 \<and> id_ctr (snd (sendId E args n s)) = 0)"
proof -
  have t: "trace (snd (sendId E args n s)) =
     trace s @
     [if encode_err E (trace s) \<lparr>Type = EVENT, PId = id_ctr s, NSP = name n, Data = Some args\<rparr> = None
      then Encoded \<lparr>Type = EVENT, PId = id_ctr s, NSP = name n, Data = Some args\<rparr>
      else EncodeFailed \<lparr>Type = EVENT, PId = id_ctr s, NSP = name n, Data = Some args\<rparr>]"
    by (simp add: sendId_def Encode_def Let_def split: option.splits)
  have c: "id_ctr (snd (sendId E args n s)) = (if sint (id_ctr s + 1) < 0 then 0 else id_ctr s + 1)"
    by (simp add: sendId_def Encode_def Let_def split: option.splits)
  have m: "id_ctr s = 0x7FFFFFFFFFFFFFFF \<longrightarrow>
      sint (id_ctr s) = 2 ^ 63 - 1 \<and> id_ctr (snd (sendId E args n s)) = 0"
    using c by simp
  have i: "0 \<le> sint (id_ctr s) \<and> id_ctr s \<noteq> 0x7FFFFFFFFFFFFFFF \<longrightarrow>
      id_ctr (snd (sendId E args n s)) = id_ctr s + 1"
    using c sint_succ_nonneg [of "id_ctr s"] by simp
  from t c i m show ?thesis by blast
qed

theorem sendId_allocates_witness:
  "id_ctr (sock\<lparr>id_ctr := 0x7FFFFFFFFFFFFFFF\<rparr>) = 0x7FFFFFFFFFFFFFFF \<and>
   id_ctr (snd (sendId quiet [VStr ''ping''] (view '''') (sock\<lparr>id_ctr := 0x7FFFFFFFFFFFFFFF\<rparr>))) = 0 \<and>
   0 \<le> sint (id_ctr sock) \<and> id_ctr sock \<noteq> 0x7FFFFFFFFFFFFFFF \<and>
   id_ctr (snd (sendId quiet [VStr ''ping''] (view '''') sock)) = 1"
  using sendId_allocates [of quiet "[VStr ''ping'']" "view ''''" "sock\<lparr>id_ctr := 0x7FFFFFFFFFFFFFFF\<rparr>"]
        sendId_allocates [of quiet "[VStr ''ping'']" "view ''''" sock]
  by (simp add: sock_def)

section \<open>Dispatch\<close>

lemma onPacket_dispatch:
  assumes "Type p \<noteq> ACK" and "Type p \<noteq> BINARY_ACK"
  shows "onPacket dec p h s =
           dispatch dec (eventName dec p) h (s\<lparr>trace := trace s @ nameCalls dec p\<rparr>)"
  using assms
  by (cases "Type p"; cases dec) (simp_all add: onPacket_def eventName_def nameCalls_def)


lemma dispatch_nil:
  "dispatch None m h s =
     (case events h m of
        None \<Rightarrow> ((None, None), s)
      | Some c \<Rightarrow>
          (packResults (Call c (GetArgs c)),
           s\<lparr>trace := trace s @ [Invoked (cid c) (GetArgs c)]\<rparr>))"
  by (simp add: dispatch_def Let_def split: option.splits)

lemma dispatch_decoded:
  assumes "events h m = Some c" and "GetArgs c \<noteq> []" and "DecodeData d (GetArgs c) = Inr a"
  shows "dispatch (Some d) m h s =
           (packResults (Call c (a @ replicate (length (GetArgs c) - length a) VNil)),
            s\<lparr>trace := trace s @
                 [DecDecodeData, Invoked (cid c) (a @ replicate (length (GetArgs c) - length a) VNil)]\<rparr>)"
  using assms by (simp add: dispatch_def Let_def)

lemma dispatch_no_slots:
  assumes "events h m = Some c" and "GetArgs c = []"
  shows "dispatch (Some d) m h s =
           (packResults (Call c []), s\<lparr>trace := trace s @ [Invoked (cid c) []]\<rparr>)"
  using assms by (simp add: dispatch_def Let_def)

lemma dispatch_decode_error:
  assumes "events h m = Some c" and "GetArgs c \<noteq> []" and "DecodeData d (GetArgs c) = Inl e"
  shows "dispatch (Some d) m h s =
           ((None, Some (Err e)), s\<lparr>trace := trace s @ [DecDecodeData]\<rparr>)"
  using assms by (simp add: dispatch_def Let_def)

lemma packResults_no_panic: "snd (packResults retV) \<noteq> Some NilDeref"
  by (simp add: packResults_def split: val.splits)

text \<open>
  C9. A packet that is not an acknowledgement, dispatched with a nil decoder: the
  handler registered under the resolved name, if any, is called with its fresh
  \<open>GetArgs\<close> slots and nothing else happens; in particular no \<open>Message\<close>,
  \<open>DecodeData\<close> or \<open>Close\<close> call is made on the decoder, and the nil pointer is
  not dereferenced.
\<close>

theorem onPacket_nil_decoder:
  assumes "Type p \<noteq> ACK" and "Type p \<noteq> BINARY_ACK"
  shows "onPacket None p h s =
           (case events h (eventName None p) of
              None \<Rightarrow> ((None, None), s)
            | Some c \<Rightarrow>
                (packResults (Call c (GetArgs c)),
                 s\<lparr>trace := trace s @ [Invoked (cid c) (GetArgs c)]\<rparr>)) \<and>
         DecMessage \<notin> set (drop (length (trace s)) (trace (snd (onPacket None p h s)))) \<and>
         DecDecodeData \<notin> set (drop (length (trace s)) (trace (snd (onPacket None p h s)))) \<and>
         DecClose \<notin> set (drop (length (trace s)) (trace (snd (onPacket None p h s)))) \<and>
         snd (fst (onPacket None p h s)) \<noteq> Some NilDeref"
proof -
  have eq: "onPacket None p h s =
           (case events h (eventName None p) of
              None \<Rightarrow> ((None, None), s)
            | Some c \<Rightarrow>
                (packResults (Call c (GetArgs c)),
                 s\<lparr>trace := trace s @ [Invoked (cid c) (GetArgs c)]\<rparr>))"
    using assms by (simp add: onPacket_dispatch dispatch_nil nameCalls_def)
  show ?thesis
  proof (cases "events h (eventName None p)")
    case None
    with eq show ?thesis by simp
  next
    case (Some c)
    with eq show ?thesis by (simp add: packResults_no_panic)
  qed
qed

theorem onPacket_nil_decoder_witness:
  "onPacket None \<lparr>Type = DISCONNECT, PId = - 1, NSP = '''', Data = None\<rparr>
     (view ''''\<lparr>events := [''disconnection'' \<mapsto> greet]\<rparr>) sock =
   ((Some [VStr ''hi'', VStr ''''], None), sock\<lparr>trace := [Invoked ''greet'' [VStr '''', VNil]]\<rparr>)"
  using onPacket_nil_decoder
          [of "\<lparr>Type = DISCONNECT, PId = - 1, NSP = '''', Data = None\<rparr>"
              "view ''''\<lparr>events := [''disconnection'' \<mapsto> greet]\<rparr>" sock]
  by (simp add: eventName_def greet_def packResults_def sock_def)



text \<open>
  C8. A handler with more declared parameters than the payload supplies elements:
  the decoder leaves \<open>a\<close> in the slots, shorter than \<open>GetArgs\<close>; the handler is then
  called on \<open>a\<close> followed by nils, exactly as many arguments as it declares.
\<close>

theorem onPacket_pads_arguments:
  assumes "Type p \<noteq> ACK" and "Type p \<noteq> BINARY_ACK"
      and "events h (eventName (Some d) p) = Some c"
      and "DecodeData d (GetArgs c) = Inr a"
      and "length a < length (GetArgs c)"
  shows "trace (snd (onPacket (Some d) p h s)) =
           trace s @ nameCalls (Some d) p @
           [DecDecodeData, Invoked (cid c) (a @ replicate (length (GetArgs c) - length a) VNil)] \<and>
         length (a @ replicate (length (GetArgs c) - length a) VNil) = length (GetArgs c) \<and>
         fst (onPacket (Some d) p h s) =
           packResults (Call c (a @ replicate (length (GetArgs c) - length a) VNil))"
proof -
  from assms(5) have ne: "GetArgs c \<noteq> []" by auto
  have "onPacket (Some d) p h s =
          dispatch (Some d) (eventName (Some d) p) h (s\<lparr>trace := trace s @ nameCalls (Some d) p\<rparr>)"
    using assms(1,2) by (rule onPacket_dispatch)
  also have "\<dots> =
      (packResults (Call c (a @ replicate (length (GetArgs c) - length a) VNil)),
       s\<lparr>trace := trace s @ nameCalls (Some d) p @
            [DecDecodeData, Invoked (cid c) (a @ replicate (length (GetArgs c) - length a) VNil)]\<rparr>)"
    using dispatch_decoded [OF assms(3) ne assms(4)] by simp
  finally show ?thesis using assms(5) by simp
qed

theorem onPacket_pads_arguments_witness:
  "trace (snd (onPacket (Some (reads ''greet'' [VStr ''alice'']))
          \<lparr>Type = EVENT, PId = - 1, NSP = '''', Data = None\<rparr> (view '''') sock)) =
     [DecMessage, DecDecodeData, Invoked ''greet'' [VStr ''alice'', VNil]] \<and>
   fst (onPacket (Some (reads ''greet'' [VStr ''alice'']))
          \<lparr>Type = EVENT, PId = - 1, NSP = '''', Data = None\<rparr> (view '''') sock) =
     (Some [VStr ''hi'', VStr ''alice''], None)"
  using onPacket_pads_arguments
          [of "\<lparr>Type = EVENT, PId = - 1, NSP = '''', Data = None\<rparr>" "view ''''"
              "reads ''greet'' [VStr ''alice'']" greet "[VStr ''alice'']" sock]
  by (simp add: eventName_def nameCalls_def reads_def view_def greet_def sock_def packResults_def)

section \<open>Acknowledgements\<close>




section \<open>Connecting a namespace\<close>

text \<open>
  C10. \<^verbatim>\<open>sendConnect\<close> returns whatever error the encoder gives for the \<open>CONNECT\<close>
  reply, and in every case leaves the view with \<open>connected\<close> set and nothing else
  changed: the flag is true also when the encoder fails.
\<close>

theorem sendConnect_sets_connected:
  "fst (sendConnect E n s) =
     map_option Err (encode_err E (trace s) \<lparr>Type = CONNECT, PId = - 1, NSP = name n, Data = None\<rparr>) \<and>
   fst (snd (sendConnect E n s)) = n\<lparr>connected := True\<rparr> \<and>
   connected (fst (snd (sendConnect E n s)))"
  by (simp add: sendConnect_def Encode_def Let_def split: option.splits)

theorem sendConnect_sets_connected_witness:
  "fst (sendConnect broken (view ''/chat'') sock) = Some (Err ''broken pipe'') \<and>
   connected (fst (snd (sendConnect broken (view ''/chat'') sock)))"
  using sendConnect_sets_connected [of broken "view ''/chat''" sock]
  by (simp add: broken_def quiet_def)

section \<open>Acknowledging events in the loop\<close>

lemma onPacket_event_called:
  assumes ty: "Type p = EVENT \<or> Type p = BINARY_EVENT"
      and ev: "events ns (Message d) = Some c"
      and dc: "GetArgs c = [] \<and> a = [] \<or> GetArgs c \<noteq> [] \<and> DecodeData d (GetArgs c) = Inr a"
  shows "onPacket (Some d) p ns s =
           (packResults (Call c (a @ replicate (length (GetArgs c) - length a) VNil)),
            s\<lparr>trace := trace s @ DecMessage # (if GetArgs c = [] then [] else [DecDecodeData]) @
                 [Invoked (cid c) (a @ replicate (length (GetArgs c) - length a) VNil)]\<rparr>)"
proof -
  from ty have na: "Type p \<noteq> ACK" "Type p \<noteq> BINARY_ACK" by auto
  from ty have nm: "eventName (Some d) p = Message d" "nameCalls (Some d) p = [DecMessage]"
    by (auto simp: eventName_def nameCalls_def)
  show ?thesis
  proof (cases "GetArgs c = []")
    case True
    with dc have "a = []" by simp
    with True show ?thesis
      using dispatch_no_slots [OF ev True] by (simp add: onPacket_dispatch [OF na] nm)
  next
    case False
    with dc have "DecodeData d (GetArgs c) = Inr a" by simp
    with False show ?thesis
      using dispatch_decoded [OF ev False] by (simp add: onPacket_dispatch [OF na] nm)
  qed
qed

text \<open>
  C1, as the code has it. An inbound \<open>EVENT\<close> or \<open>BINARY_EVENT\<close> packet with
  \<open>Id \<ge> 0\<close> whose handler \<open>c\<close> is found and whose payload decodes (to \<open>a\<close>; a handler
  without parameters needs no decoding): the handler is called on the padded
  arguments. If the last value it returns is not an error, the loop then hands an
  \<open>ACK\<close> packet with the same \<open>Id\<close> and \<open>NSP\<close> and the returned values as \<open>Data\<close> to the
  encoder, and surfaces only a failure of that write. If the last value it returns
  is an error, the loop surfaces that error and the call of the handler is the last
  thing it does for this packet: no \<open>ACK\<close> is encoded.
\<close>

theorem handle_event_ack:
  assumes "Type p = EVENT \<or> Type p = BINARY_EVENT"
      and "0 \<le> sint (PId p)"
      and "namespace s (NSP p) = Some (k, ns)"
      and "events ns (Message d) = Some c"
      and "GetArgs c = [] \<and> a = [] \<or> GetArgs c \<noteq> [] \<and> DecodeData d (GetArgs c) = Inr a"
      and "args = a @ replicate (length (GetArgs c) - length a) VNil"
      and "called = trace s @ DecMessage # (if GetArgs c = [] then [] else [DecDecodeData]) @ [Invoked (cid c) args]"
      and "ack = \<lparr>Type = ACK, PId = PId p, NSP = NSP p, Data = fst (packResults (Call c args))\<rparr>"
  shows "handle E d p s =
           (case snd (packResults (Call c args)) of
              Some err \<Rightarrow> (Some err, s\<lparr>trace := called\<rparr>)
            | None \<Rightarrow>
                (case encode_err E called ack of
                   None \<Rightarrow> (None, s\<lparr>trace := called @ [Encoded ack]\<rparr>)
                 | Some e \<Rightarrow> (Some (Err e), s\<lparr>trace := called @ [EncodeFailed ack]\<rparr>)))"
proof -
  have op: "onPacket (Some d) p ns s = (packResults (Call c args), s\<lparr>trace := called\<rparr>)"
    using onPacket_event_called [OF assms(1) assms(4) assms(5)] assms(6,7) by simp
  obtain ret err where pr: "packResults (Call c args) = (ret, err)"
    by (cases "packResults (Call c args)")
  show ?thesis
  proof (cases err)
    case (Some e)
    with op pr show ?thesis by (simp add: handle_def assms(3))
  next
    case None
    from assms(1) show ?thesis
    proof
      assume "Type p = EVENT"
      with op pr None show ?thesis
        by (simp add: handle_def assms(2,3,8) Encode_def split: option.splits)
    next
      assume "Type p = BINARY_EVENT"
      with op pr None show ?thesis
        by (simp add: handle_def assms(2,3,8) Encode_def split: option.splits)
    qed
  qed
qed

theorem handle_event_ack_witness:
  "handle quiet (reads ''greet'' [VStr ''alice'']) \<lparr>Type = EVENT, PId = 7, NSP = '''', Data = None\<rparr> sock =
     (None,
      sock\<lparr>trace :=
        [DecMessage, DecDecodeData, Invoked ''greet'' [VStr ''alice'', VNil],
         Encoded \<lparr>Type = ACK, PId = 7, NSP = '''', Data = Some [VStr ''hi'', VStr ''alice'']\<rparr>]\<rparr>) \<and>
   handle quiet (reads ''hello'' [VStr ''alice'']) \<lparr>Type = EVENT, PId = 7, NSP = '''', Data = None\<rparr> sock =
     (Some (Err ''boom''),
      sock\<lparr>trace := [DecMessage, DecDecodeData, Invoked ''failing'' [VStr ''alice'']]\<rparr>)"
  using handle_event_ack
          [of "\<lparr>Type = EVENT, PId = 7, NSP = '''', Data = None\<rparr>" sock "''''" "view ''''"
              "reads ''greet'' [VStr ''alice'']" greet "[VStr ''alice'']" "[VStr ''alice'', VNil]"
              "[DecMessage, DecDecodeData, Invoked ''greet'' [VStr ''alice'', VNil]]"
              "\<lparr>Type = ACK, PId = 7, NSP = '''', Data = Some [VStr ''hi'', VStr ''alice'']\<rparr>" quiet]
        handle_event_ack
          [of "\<lparr>Type = EVENT, PId = 7, NSP = '''', Data = None\<rparr>" sock "''''" "view ''''"
              "reads ''hello'' [VStr ''alice'']" failing "[VStr ''alice'']" "[VStr ''alice'']"
              "[DecMessage, DecDecodeData, Invoked ''failing'' [VStr ''alice'']]"
              "\<lparr>Type = ACK, PId = 7, NSP = '''', Data = Some [VStr ''hi'']\<rparr>" quiet]
  by (simp add: sock_def view_def reads_def greet_def failing_def quiet_def namespace_def
        packResults_def)

text \<open>
  The claim as it is written fails for a handler whose last result is an error: the
  connection with the \<open>hello\<close> handler that returns \<^verbatim>\<open>("hi", error)\<close> receives the event
  with id 7 and then closes. The loop returns the handler's error, and its whole
  trace (the initial \<open>CONNECT\<close>, the dispatch; there is nothing for the cleanup to
  call) holds no \<open>ACK\<close> packet.
\<close>

theorem handle_event_ack_counterexample:
  "loop quiet [Inr (reads ''hello'' [VStr ''alice''], \<lparr>Type = EVENT, PId = 7, NSP = '''', Data = None\<rparr>)] sock =
     (Err ''boom'',
      sock\<lparr>nsps := [('''', view ''''\<lparr>disconnected := True\<rparr>), (''/chat'', view ''/chat''\<lparr>disconnected := True\<rparr>)],
           trace :=
             [Encoded \<lparr>Type = CONNECT, PId = - 1, NSP = '''', Data = None\<rparr>,
              DecMessage, DecDecodeData, Invoked ''failing'' [VStr ''alice'']]\<rparr>)"
  by (simp add: loop_def loopBody_def sock_def view_def reads_def failing_def quiet_def namespace_def
        packResults_def Encode_def onPacket_def dispatch_def handle_def LeaveAll_def Let_def)

section \<open>Emission with a continuation\<close>

text \<open>
  What \<^verbatim>\<open>nspEmit\<close> does with a trailing function value that \<^verbatim>\<open>newCaller\<close> accepts:
  \<^verbatim>\<open>sendId\<close> never returns an error, so the emission returns nil and stores the
  continuation, under the id of the packet when the encoder accepted it and under
  \<open>- 1\<close> when the encoder failed.
\<close>

lemma nspEmit_continuation:
  assumes "newCaller E f = Inr c"
  shows "fst (nspEmit E ev (xs @ [VFunc f]) n s) = None \<and>
         acks (snd (nspEmit E ev (xs @ [VFunc f]) n s)) =
           (acks s)
             ((if encode_err E (trace s)
                    \<lparr>Type = EVENT, PId = id_ctr s, NSP = name n, Data = Some (VStr ev # xs)\<rparr> = None
               then id_ctr s else - 1) \<mapsto> c)"
  using assms
  by (simp add: nspEmit_def sendId_def Encode_def Let_def split: option.splits)

text \<open>
  C2 at a failing input: \<^verbatim>\<open>Emit("ping", 42, fn)\<close> on the root view of a fresh
  connection whose encoder fails. The emission returns nil, not the encoder's error,
  and the ack table, empty before, holds the continuation under id \<open>- 1\<close>.
\<close>

theorem Emit_encode_failure:
  "encode_err broken (trace sock) \<lparr>Type = EVENT, PId = 0, NSP = '''', Data = Some [VStr ''ping'', VInt 42]\<rparr> =
     Some ''broken pipe'' \<and>
   fst (Emit broken ''ping'' [VInt 42, VFunc ''fn''] (view '''') sock) = None \<and>
   acks sock = Map.empty \<and>
   map_option cid (acks (snd (Emit broken ''ping'' [VInt 42, VFunc ''fn''] (view '''') sock)) (- 1)) =
     Some ''fn'' \<and>
   trace (snd (Emit broken ''ping'' [VInt 42, VFunc ''fn''] (view '''') sock)) =
     [EncodeFailed \<lparr>Type = EVENT, PId = 0, NSP = '''', Data = Some [VStr ''ping'', VInt 42]\<rparr>]"
  by (simp add: Emit_def nspEmit_def sendId_def Encode_def broken_def quiet_def sock_def view_def
        Let_def)

section \<open>Leaving the rooms on teardown\<close>

text \<open>
  \<^verbatim>\<open>Join\<close> stores the prefixed name, and \<^verbatim>\<open>LeaveAll\<close> prefixes every stored name once
  more before it calls the adaptor; it leaves the view's room set as it found it.
\<close>

lemma Join_rooms:
  assumes "join_err E (name h @ '':'' @ room) = None"
  shows "set (rooms (fst (snd (Join E room h s)))) = insert (name h @ '':'' @ room) (set (rooms h))"
  using assms by (auto simp: Join_def broadcastName_def Let_def)

lemma leaveRooms_trace:
  assumes "\<forall>r. leave_err E r = None"
  shows "leaveRooms E h rs s =
           (None, s\<lparr>trace := trace s @ map (\<lambda>r. AdLeave (name h @ '':'' @ r) (name h)) rs\<rparr>)"
  using assms
  by (induction rs arbitrary: s) (simp_all add: broadcastName_def Let_def)

text \<open>
  C3 at a failing input: the view of \<open>/chat\<close> joins \<open>a\<close> and \<open>b\<close> (its room set is
  then \<open>/chat:a\<close>, \<open>/chat:b\<close>, joined under these names at the adaptor), and the
  transport closes before any frame arrives. During cleanup the adaptor is asked to
  leave \<open>/chat:/chat:a\<close> and \<open>/chat:/chat:b\<close>, and never \<open>/chat:a\<close> or \<open>/chat:b\<close>.
\<close>

theorem LeaveAll_double_prefix:
  "map_option rooms (map_of (nsps joined) ''/chat'') = Some [''/chat:a'', ''/chat:b''] \<and>
   trace joined = [AdJoin ''/chat:a'' ''/chat'', AdJoin ''/chat:b'' ''/chat''] \<and>
   trace (snd (loop quiet [] joined)) =
     [AdJoin ''/chat:a'' ''/chat'', AdJoin ''/chat:b'' ''/chat'',
      Encoded \<lparr>Type = CONNECT, PId = - 1, NSP = '''', Data = None\<rparr>,
      AdLeave ''/chat:/chat:a'' ''/chat'', AdLeave ''/chat:/chat:b'' ''/chat'']"
  by (simp add: joined_def Join_def store_def broadcastName_def loop_def loopBody_def sock_def view_def
        quiet_def namespace_def Encode_def onPacket_def dispatch_def LeaveAll_def Let_def)

section \<open>The views after the loop\<close>

lemma cleanup_disconnected:
  "(k, v) \<in> set (fst (cleanup E kvs s)) \<Longrightarrow> disconnected v"
proof (induction kvs arbitrary: s)
  case Nil
  then show ?case by simp
next
  case (Cons kv kvs)
  obtain k' v' where kv: "kv = (k', v')" by (cases kv)
  show ?case
  proof (cases "disconnected v'")
    case True
    with Cons.prems kv
    have "(k, v) = (k', v') \<or> (k, v) \<in> set (fst (cleanup E kvs s))"
      by (auto split: prod.splits)
    with True Cons.IH show ?thesis by auto
  next
    case False
    define s2 where
      "s2 = snd (onPacket None \<lparr>Type = DISCONNECT, PId = - 1, NSP = k', Data = None\<rparr> v'
                   (snd (LeaveAll E v' s)))"
    with Cons.prems kv False
    have "(k, v) = (k', v'\<lparr>disconnected := True\<rparr>) \<or> (k, v) \<in> set (fst (cleanup E kvs s2))"
      by (auto simp: Let_def split: prod.splits)
    with Cons.IH show ?thesis by auto
  qed
qed

lemma cleanup_rooms:
  "map (\<lambda>(k, v). (k, rooms v)) (fst (cleanup E kvs s)) = map (\<lambda>(k, v). (k, rooms v)) kvs"
proof (induction kvs arbitrary: s)
  case Nil
  show ?case by simp
next
  case (Cons kv kvs)
  obtain k' v' where kv: "kv = (k', v')" by (cases kv)
  show ?case
  proof (cases "disconnected v'")
    case True
    then have "fst (cleanup E (kv # kvs) s) = (k', v') # fst (cleanup E kvs s)"
      by (simp add: kv split: prod.splits)
    then show ?thesis by (simp add: kv Cons.IH)
  next
    case False
    define s2 where
      "s2 = snd (onPacket None \<lparr>Type = DISCONNECT, PId = - 1, NSP = k', Data = None\<rparr> v'
                   (snd (LeaveAll E v' s)))"
    with False
    have "fst (cleanup E (kv # kvs) s) = (k', v'\<lparr>disconnected := True\<rparr>) # fst (cleanup E kvs s2)"
      by (simp add: kv Let_def split: prod.splits)
    then show ?thesis by (simp add: kv Cons.IH)
  qed
qed

text \<open>
  However the loop exits, the cleanup leaves every view with \<open>disconnected\<close> set.
\<close>

lemma loop_disconnected:
  assumes "(k, v) \<in> set (nsps (snd (loop E fs s)))"
  shows "disconnected v"
proof -
  have "nsps (snd (loop E fs s)) =
        fst (cleanup E (nsps (snd (loopBody E fs s))) (snd (loopBody E fs s)))"
    by (simp add: loop_def case_prod_unfold)
  with assms show ?thesis by (auto dest: cleanup_disconnected)
qed

text \<open>
  No step of the loop changes a room set: the views change in their flags only.
\<close>

lemma nsps_Encode: "nsps (snd (Encode E p s)) = nsps s"
  by (simp add: Encode_def split: option.splits)

lemma nsps_leaveRooms: "nsps (snd (leaveRooms E h rs s)) = nsps s"
  by (induction rs arbitrary: s) (simp_all add: Let_def split: option.splits)

lemma nsps_LeaveAll: "nsps (snd (LeaveAll E h s)) = nsps s"
  by (simp add: LeaveAll_def nsps_leaveRooms)

lemma nsps_onAck: "nsps (snd (onAck i dec p h s)) = nsps s"
  by (simp add: onAck_def Let_def split: option.splits sum.splits)

lemma nsps_dispatch: "nsps (snd (dispatch dec m h s)) = nsps s"
  by (simp add: dispatch_def Let_def split: option.splits sum.splits prod.splits)

lemma nsps_onPacket: "nsps (snd (onPacket dec p h s)) = nsps s"
  by (cases "Type p")
     (simp_all add: onPacket_def nsps_dispatch nsps_onAck case_prod_unfold split: option.splits)

lemma nsps_sendConnect:
  "nsps (snd (snd (sendConnect E n s))) = nsps s \<and> rooms (fst (snd (sendConnect E n s))) = rooms n"
  by (simp add: sendConnect_def Let_def nsps_Encode case_prod_unfold)

lemma store_rooms:
  assumes "distinct (map fst (nsps s))" and "map_of (nsps s) k = Some n0" and "rooms n = rooms n0"
  shows "map (\<lambda>(k, v). (k, rooms v)) (nsps (store k n s)) = map (\<lambda>(k, v). (k, rooms v)) (nsps s)"
proof -
  have eq: "rooms n = rooms v" if "(k, v) \<in> set (nsps s)" for v
  proof -
    from that assms(1) have "map_of (nsps s) k = Some v" by simp
    with assms(2,3) show ?thesis by simp
  qed
  show ?thesis by (auto simp: store_def dest: eq)
qed

lemma namespace_Some:
  assumes "namespace s nsp = Some (k, n)"
  shows "map_of (nsps s) k = Some n"
  using assms by (auto simp: namespace_def split: option.splits)

lemma handle_rooms:
  assumes "distinct (map fst (nsps s))"
  shows "map (\<lambda>(k, v). (k, rooms v)) (nsps (snd (handle E d p s))) =
         map (\<lambda>(k, v). (k, rooms v)) (nsps s)"
proof (cases "namespace s (NSP p)")
  case None
  then show ?thesis by (simp add: handle_def)
next
  case (Some kn)
  obtain k ns where kn: "kn = (k, ns)" by (cases kn)
  obtain ret err s1 where op: "onPacket (Some d) p ns s = ((ret, err), s1)"
    by (metis surj_pair)
  have n1: "nsps s1 = nsps s"
    using nsps_onPacket [of "Some d" p ns s] op by simp
  have m1: "map_of (nsps s1) k = Some ns"
    using namespace_Some Some kn n1 by simp
  have d1: "distinct (map fst (nsps s1))"
    using assms n1 by simp
  show ?thesis
  proof (cases err)
    case (Some e)
    with op n1 show ?thesis by (simp add: handle_def \<open>namespace s (NSP p) = Some kn\<close> kn)
  next
    case None
    have ack: "nsps (snd (Encode E \<lparr>Type = ACK, PId = PId p, NSP = NSP p, Data = ret\<rparr> s1)) = nsps s"
      by (simp add: nsps_Encode n1)
    have con: "map (\<lambda>(k, v). (k, rooms v))
                 (nsps (store k (fst (snd (sendConnect E ns s1))) (snd (snd (sendConnect E ns s1))))) =
               map (\<lambda>(k, v). (k, rooms v)) (nsps s)"
      using store_rooms [of "snd (snd (sendConnect E ns s1))" k ns "fst (snd (sendConnect E ns s1))"]
            nsps_sendConnect [of E ns s1] d1 m1 n1 by simp
    have dis: "map (\<lambda>(k, v). (k, rooms v))
                 (nsps (store k (ns\<lparr>disconnected := True\<rparr>) (snd (LeaveAll E ns s1)))) =
               map (\<lambda>(k, v). (k, rooms v)) (nsps s)"
      using store_rooms [of "snd (LeaveAll E ns s1)" k ns "ns\<lparr>disconnected := True\<rparr>"]
            d1 m1 n1 by (simp add: nsps_LeaveAll)
    from op None \<open>namespace s (NSP p) = Some kn\<close> kn ack con dis n1 show ?thesis
      by (cases "Type p") (simp_all add: handle_def Let_def case_prod_unfold)
  qed
qed

lemma readLoop_rooms:
  assumes "distinct (map fst (nsps s))"
  shows "map (\<lambda>(k, v). (k, rooms v)) (nsps (snd (readLoop E fs s))) =
         map (\<lambda>(k, v). (k, rooms v)) (nsps s)"
  using assms
proof (induction fs arbitrary: s)
  case Nil
  show ?case by simp
next
  case (Cons f fs)
  show ?case
  proof (cases f)
    case (Inl e)
    then show ?thesis by simp
  next
    case (Inr dp)
    obtain d p where dp: "dp = (d, p)" by (cases dp)
    obtain err s1 where h: "handle E d p s = (err, s1)" by (cases "handle E d p s")
    have r1: "map (\<lambda>(k, v). (k, rooms v)) (nsps s1) = map (\<lambda>(k, v). (k, rooms v)) (nsps s)"
      using handle_rooms [OF Cons.prems, of E d p] h by simp
    then have "map fst (map (\<lambda>(k, v). (k, rooms v)) (nsps s1)) =
               map fst (map (\<lambda>(k, v). (k, rooms v)) (nsps s))" by simp
    then have "map fst (nsps s1) = map fst (nsps s)"
      by (simp add: case_prod_unfold comp_def)
    with Cons.prems have d1: "distinct (map fst (nsps s1))" by simp
    show ?thesis
    proof (cases err)
      case None
      with Inr dp h Cons.IH [OF d1] r1 show ?thesis by simp
    next
      case (Some e)
      with Inr dp h r1 show ?thesis by simp
    qed
  qed
qed

lemma loopBody_rooms:
  assumes "distinct (map fst (nsps s))"
  shows "map (\<lambda>(k, v). (k, rooms v)) (nsps (snd (loopBody E fs s))) =
         map (\<lambda>(k, v). (k, rooms v)) (nsps s)"
proof -
  define p where "p = \<lparr>Type = CONNECT, PId = - 1, NSP = '''', Data = None\<rparr>"
  obtain e0 s0 where enc: "Encode E p s = (e0, s0)" by (cases "Encode E p s")
  have n0: "nsps s0 = nsps s" using nsps_Encode [of E p s] enc by simp
  show ?thesis
  proof (cases e0)
    case (Some e)
    with enc n0 show ?thesis by (simp add: loopBody_def p_def)
  next
    case None
    show ?thesis
    proof (cases "namespace s0 ''''")
      case None
      with enc \<open>e0 = None\<close> n0 show ?thesis by (simp add: loopBody_def p_def)
    next
      case (Some kn)
      obtain k ns where kn: "kn = (k, ns)" by (cases kn)
      have n2: "nsps (snd (onPacket None p ns s0)) = nsps s" by (simp add: nsps_onPacket n0)
      with assms have "distinct (map fst (nsps (snd (onPacket None p ns s0))))" by simp
      from readLoop_rooms [OF this, of E fs] n2 enc \<open>e0 = None\<close> Some kn
      show ?thesis by (simp add: loopBody_def p_def)
    qed
  qed
qed

lemma loop_rooms:
  assumes "distinct (map fst (nsps s))"
  shows "map (\<lambda>(k, v). (k, rooms v)) (nsps (snd (loop E fs s))) =
         map (\<lambda>(k, v). (k, rooms v)) (nsps s)"
proof -
  have "nsps (snd (loop E fs s)) =
        fst (cleanup E (nsps (snd (loopBody E fs s))) (snd (loopBody E fs s)))"
    by (simp add: loop_def case_prod_unfold)
  then show ?thesis by (simp add: cleanup_rooms loopBody_rooms [OF assms])
qed

text \<open>
  C4 at a failing input: the connection whose \<open>/chat\<close> view has joined \<open>a\<close> and \<open>b\<close>,
  and whose transport closes. After the loop both views have \<open>disconnected\<close> set,
  and the \<open>/chat\<close> view still has both rooms in its room set.
\<close>

theorem loop_keeps_rooms:
  "map (\<lambda>(k, v). (k, rooms v, disconnected v)) (nsps (snd (loop quiet [] joined))) =
     [('''', [], True), (''/chat'', [''/chat:a'', ''/chat:b''], True)]"
  by (simp add: joined_def Join_def store_def broadcastName_def loop_def loopBody_def sock_def view_def
        quiet_def namespace_def Encode_def onPacket_def dispatch_def LeaveAll_def Let_def)

end
